theory Spec2Isabelle
  imports Main "HOL-Library.Word"
begin

unbundle bit_operations_syntax

section \<open>Modbus RTU master: frame codec, response validation, register decoding\<close>

text \<open>
  A shallow embedding of \<^verbatim>\<open>modbus_rtu_lib.py\<close> (class \<^verbatim>\<open>Modbus\<close>). Python
  \<^verbatim>\<open>bytes\<close> are lists of 8-bit words, Python integers are \<open>int\<close>, an exception
  is the \<open>Inl\<close> branch of a sum, and the serial port is a record threaded through every
  operation. The two debug printers (\<^verbatim>\<open>_print_request\<close>, \<^verbatim>\<open>_print_response\<close>)
  only write to standard output and are left out.
\<close>

subsection \<open>Bytes, exceptions, slices\<close>

type_synonym byte = "8 word"
type_synonym bytes = "byte list"

text \<open>
  The keys of \<^verbatim>\<open>locale_table\<close> identify the message an exception carries;
  \<open>negative_count\<close> is the interpreter's own message of \<^verbatim>\<open>bytes(n)\<close> for \<open>n < 0\<close>.
\<close>

datatype message =
    no_respond
  | crc_is_not_correct
  | invalid_function
  | invalid_device_addr
  | invalid_integer_format
  | invalid_float_format
  | negative_count

text \<open>
  The exception classes the module can raise: the builtin \<^verbatim>\<open>ValueError\<close> and
  \<^verbatim>\<open>TimeoutError\<close>, the module's \<^verbatim>\<open>CrcError\<close> and \<^verbatim>\<open>FunctionError\<close>, and
  \<^verbatim>\<open>struct.error\<close>.
\<close>

datatype error =
    ValueError message
  | TimeoutError message
  | CrcError message
  | FunctionError message
  | StructError

text \<open>
  Python slice bounds: a negative bound counts from the end, and every bound is clamped
  to the sequence. \<open>pyslice xs i j\<close> is \<^verbatim>\<open>xs[i:j]\<close>, \<open>pyslice_from xs i\<close> is \<^verbatim>\<open>xs[i:]\<close>.
\<close>

definition pyslice_index :: "nat \<Rightarrow> int \<Rightarrow> nat" where
  "pyslice_index n i = (if i < 0 then nat (max 0 (int n + i)) else min n (nat i))"

definition pyslice :: "'a list \<Rightarrow> int \<Rightarrow> int \<Rightarrow> 'a list" where
  "pyslice xs i j =
     (let a = pyslice_index (length xs) i; b = pyslice_index (length xs) j
      in take (b - a) (drop a xs))"

definition pyslice_from :: "'a list \<Rightarrow> int \<Rightarrow> 'a list" where
  "pyslice_from xs i = drop (pyslice_index (length xs) i) xs"

subsection \<open>CRC-16\<close>

text \<open>
  Modelled from the spec: the module \<^verbatim>\<open>crc16\<close> that \<^verbatim>\<open>modbus_rtu_lib.py\<close>
  imports is not among the sources. Section 4.1 of the specification gives it as the
  Modbus CRC-16: initial register \<open>0xFFFF\<close>, polynomial \<open>0xA001\<close> applied least
  significant bit first, eight bits per input byte, the result returned as two bytes,
  low byte first.
\<close>

definition crc16_shift :: "16 word \<Rightarrow> 16 word" where
  "crc16_shift c = (if bit c 0 then drop_bit 1 c XOR 0xA001 else drop_bit 1 c)"

definition crc16_update :: "16 word \<Rightarrow> byte \<Rightarrow> 16 word" where
  "crc16_update c b = (crc16_shift ^^ 8) (c XOR ucast b)"

definition crc16_register :: "bytes \<Rightarrow> 16 word" where
  "crc16_register data = foldl crc16_update 0xFFFF data"

definition crc16 :: "bytes \<Rightarrow> bytes" where
  "crc16 data = (let c = crc16_register data in [ucast c, ucast (drop_bit 8 c)])"

subsection \<open>The serial port\<close>

text \<open>
  The transport is used through \<^verbatim>\<open>port.write\<close> and \<^verbatim>\<open>port.read\<close> only. \<open>rx\<close> holds
  the bytes the line delivers before the read timeout, in order; \<open>trace\<close> records every
  call made on the port, oldest first; \<open>echo\<close> is the client's echo flag. A read of
  \<open>n\<close> bytes returns at most \<open>n\<close> bytes and fewer when the line runs dry.
\<close>

datatype io_event = Write bytes | Read int

record modbus =
  echo :: bool
  rx :: bytes
  trace :: "io_event list"

definition port_write :: "bytes \<Rightarrow> modbus \<Rightarrow> modbus" where
  "port_write request m = m\<lparr>trace := trace m @ [Write request]\<rparr>"

definition port_read :: "int \<Rightarrow> modbus \<Rightarrow> bytes \<times> modbus" where
  "port_read n m =
     (take (nat n) (rx m),
      m\<lparr>rx := drop (nat n) (rx m), trace := trace m @ [Read n]\<rparr>)"

subsection \<open>Checks\<close>

text \<open>
  \<^verbatim>\<open>if not 0 >= device_addr <= 255: raise ValueError(...)\<close>. The chained comparison
  is \<^verbatim>\<open>0 >= device_addr and device_addr <= 255\<close>.
\<close>

definition check_device_addr :: "int \<Rightarrow> error + unit" where
  "check_device_addr device_addr =
     (if \<not> (0 \<ge> device_addr \<and> device_addr \<le> 255)
      then Inl (ValueError invalid_device_addr) else Inr ())"

definition read_echo :: "bytes \<Rightarrow> modbus \<Rightarrow> modbus" where
  "read_echo request m =
     (if echo m then snd (port_read (int (length request)) m) else m)"

definition check_response :: "bytes \<Rightarrow> error + unit" where
  "check_response response =
     (if length response = 0 then Inl (TimeoutError no_respond) else Inr ())"

definition check_crc :: "bytes \<Rightarrow> error + unit" where
  "check_crc response =
     (let test_crc = crc16 (pyslice response 0 (- 2))
      in if test_crc \<noteq> pyslice_from response (- 2)
         then Inl (CrcError crc_is_not_correct) else Inr ())"

definition check_command :: "bytes \<Rightarrow> bytes \<Rightarrow> error + unit" where
  "check_command command response =
     (if pyslice response 1 2 \<noteq> command
      then Inl (FunctionError invalid_function) else Inr ())"

subsection \<open>Building the request\<close>

text \<open>
  \<^verbatim>\<open>struct.pack('>H', x)\<close>: two bytes, high byte first; \<^verbatim>\<open>struct.error\<close> when
  \<open>x\<close> is not in \<open>0..65535\<close>.
\<close>

definition pack_H :: "int \<Rightarrow> error + bytes" where
  "pack_H x =
     (if 0 \<le> x \<and> x \<le> 65535
      then Inr [word_of_int (x div 256), word_of_int (x mod 256)]
      else Inl StructError)"

text \<open>
  \<^verbatim>\<open>bytes(n)\<close> for an integer \<open>n\<close>: \<open>n\<close> zero bytes; \<^verbatim>\<open>ValueError\<close> when
  \<open>n\<close> is negative.
\<close>

definition bytes_of_count :: "int \<Rightarrow> error + bytes" where
  "bytes_of_count n =
     (if n < 0 then Inl (ValueError negative_count) else Inr (replicate (nat n) 0))"

text \<open>
  The first half of \<^verbatim>\<open>_return_bytes\<close>, up to \<^verbatim>\<open>request = request_wo_crc + crc\<close>.
  Python evaluates the address check, the two \<^verbatim>\<open>struct.pack\<close> calls and
  \<^verbatim>\<open>bytes(device_addr)\<close> in this order.
\<close>

definition build_request :: "bytes \<Rightarrow> int \<Rightarrow> int \<Rightarrow> int \<Rightarrow> error + bytes" where
  "build_request command device_addr start_reg_addr regs_amount =
     (case check_device_addr device_addr of
        Inl e \<Rightarrow> Inl e
      | Inr u \<Rightarrow>
         (case pack_H start_reg_addr of
            Inl e \<Rightarrow> Inl e
          | Inr byte_start_reg_addr \<Rightarrow>
             (case pack_H regs_amount of
                Inl e \<Rightarrow> Inl e
              | Inr byte_regs_amount \<Rightarrow>
                 (case bytes_of_count device_addr of
                    Inl e \<Rightarrow> Inl e
                  | Inr addr \<Rightarrow>
                     (let request_wo_crc = addr @ command @ byte_start_reg_addr @ byte_regs_amount;
                          crc = crc16 request_wo_crc
                      in Inr (request_wo_crc @ crc))))))"

subsection \<open>Validating the response\<close>

text \<open>
  The tail of \<^verbatim>\<open>_return_bytes\<close>: \<^verbatim>\<open>_check_response\<close>, \<^verbatim>\<open>_check_crc\<close>,
  \<^verbatim>\<open>_check_command\<close>, then \<^verbatim>\<open>return response[3:-2]\<close>.
\<close>

definition validate :: "bytes \<Rightarrow> bytes \<Rightarrow> error + bytes" where
  "validate command response =
     (case check_response response of
        Inl e \<Rightarrow> Inl e
      | Inr u \<Rightarrow>
         (case check_crc response of
            Inl e \<Rightarrow> Inl e
          | Inr v \<Rightarrow>
             (case check_command command response of
                Inl e \<Rightarrow> Inl e
              | Inr w \<Rightarrow> Inr (pyslice response 3 (- 2)))))"

definition return_bytes ::
  "modbus \<Rightarrow> bytes \<Rightarrow> int \<Rightarrow> int \<Rightarrow> int \<Rightarrow> (error + bytes) \<times> modbus" where
  "return_bytes m command device_addr start_reg_addr regs_amount =
     (case build_request command device_addr start_reg_addr regs_amount of
        Inl e \<Rightarrow> (Inl e, m)
      | Inr request \<Rightarrow>
          let m1 = port_write request m;
              m2 = read_echo request m1;
              (response, m3) = port_read (regs_amount * 2 + 5) m2
          in (validate command response, m3))"

subsection \<open>Decoding\<close>

text \<open>\<^verbatim>\<open>int.from_bytes(byte_data, 'big')\<close>.\<close>

definition from_bytes_big :: "bytes \<Rightarrow> nat" where
  "from_bytes_big byte_data = foldl (\<lambda>acc b. acc * 256 + unat b) 0 byte_data"

text \<open>
  \<^verbatim>\<open>bin(n)\<close> for \<open>n \<ge> 0\<close>: the prefix \<^verbatim>\<open>0b\<close> and the binary digits of \<open>n\<close>, most
  significant first, a single \<^verbatim>\<open>0\<close> for zero. \<^verbatim>\<open>int(c)\<close> reads one digit character.
\<close>

fun bin_digits :: "nat \<Rightarrow> string" where
  "bin_digits n =
     (if n < 2 then [if n = 0 then CHR ''0'' else CHR ''1'']
      else bin_digits (n div 2) @ [if n mod 2 = 0 then CHR ''0'' else CHR ''1''])"

declare bin_digits.simps [simp del]

definition bin :: "nat \<Rightarrow> string" where
  "bin n = ''0b'' @ bin_digits n"

definition int_of_digit :: "char \<Rightarrow> int" where
  "int_of_digit c = of_char c - 48"

text \<open>
  \<^verbatim>\<open>struct.unpack('>' + c*n, byte_data)\<close> for the integer codes: standard sizes
  (\<^verbatim>\<open>h\<close> 2, \<^verbatim>\<open>l\<close> 4, \<^verbatim>\<open>q\<close> 8 bytes), big-endian, lower case signed (two's
  complement) and upper case unsigned; \<^verbatim>\<open>struct.error\<close> unless the buffer holds
  exactly \<open>n\<close> values. \<^verbatim>\<open>c*n\<close> is empty for \<open>n \<le> 0\<close>.
\<close>

definition int_size :: "char \<Rightarrow> nat option" where
  "int_size c =
     (if c = CHR ''h'' \<or> c = CHR ''H'' then Some 2
      else if c = CHR ''l'' \<or> c = CHR ''L'' then Some 4
      else if c = CHR ''q'' \<or> c = CHR ''Q'' then Some 8
      else None)"

definition signed_code :: "char \<Rightarrow> bool" where
  "signed_code c = (c = CHR ''h'' \<or> c = CHR ''l'' \<or> c = CHR ''q'')"

definition int_of_chunk :: "char \<Rightarrow> bytes \<Rightarrow> int" where
  "int_of_chunk c chunk =
     (let v = int (from_bytes_big chunk)
      in if signed_code c \<and> v \<ge> 2 ^ (8 * length chunk - 1)
         then v - 2 ^ (8 * length chunk) else v)"

fun chunks :: "nat \<Rightarrow> 'a list \<Rightarrow> 'a list list" where
  "chunks k xs =
     (if k = 0 \<or> xs = [] then [] else take k xs # chunks k (drop k xs))"

declare chunks.simps [simp del]

definition unpack_ints :: "char \<Rightarrow> int \<Rightarrow> bytes \<Rightarrow> error + int list" where
  "unpack_ints c n byte_data =
     (case int_size c of
        None \<Rightarrow> Inl StructError
      | Some k \<Rightarrow>
          if int (length byte_data) \<noteq> max 0 n * int k then Inl StructError
          else Inr (map (int_of_chunk c) (chunks k byte_data)))"

text \<open>
  The float codes \<^verbatim>\<open>f\<close> (4 bytes) and \<^verbatim>\<open>d\<close> (8 bytes). A decoded float is
  represented by the IEEE-754 bit pattern it is read from.
\<close>

datatype pyfloat = Binary32 "32 word" | Binary64 "64 word"

definition float_size :: "char \<Rightarrow> nat option" where
  "float_size c =
     (if c = CHR ''f'' then Some 4 else if c = CHR ''d'' then Some 8 else None)"

definition float_of_chunk :: "char \<Rightarrow> bytes \<Rightarrow> pyfloat" where
  "float_of_chunk c chunk =
     (if c = CHR ''f'' then Binary32 (word_of_nat (from_bytes_big chunk))
      else Binary64 (word_of_nat (from_bytes_big chunk)))"

definition unpack_floats :: "char \<Rightarrow> int \<Rightarrow> bytes \<Rightarrow> error + pyfloat list" where
  "unpack_floats c n byte_data =
     (case float_size c of
        None \<Rightarrow> Inl StructError
      | Some k \<Rightarrow>
          if int (length byte_data) \<noteq> max 0 n * int k then Inl StructError
          else Inr (map (float_of_chunk c) (chunks k byte_data)))"

text \<open>\<^verbatim>\<open>str.upper\<close> on one character.\<close>

definition upper :: "char \<Rightarrow> char" where
  "upper c =
     (let n = (of_char c :: nat)
      in if 97 \<le> n \<and> n \<le> 122 then char_of (n - 32) else c)"

subsection \<open>The public read operations\<close>

definition read_do_integers ::
  "modbus \<Rightarrow> int \<Rightarrow> int \<Rightarrow> int \<Rightarrow> (error + int list) \<times> modbus" where
  "read_do_integers m device_addr start_reg_addr ints_amount =
     (let command = [0x01]
      in case return_bytes m command device_addr start_reg_addr ints_amount of
           (Inl e, m') \<Rightarrow> (Inl e, m')
         | (Inr byte_data, m') \<Rightarrow>
             (Inr (map int_of_digit (pyslice_from (bin (from_bytes_big byte_data)) 2)), m'))"

definition read_di_integers ::
  "modbus \<Rightarrow> int \<Rightarrow> int \<Rightarrow> int \<Rightarrow> (error + int list) \<times> modbus" where
  "read_di_integers m device_addr start_reg_addr ints_amount =
     (let command = [0x02]
      in case return_bytes m command device_addr start_reg_addr ints_amount of
           (Inl e, m') \<Rightarrow> (Inl e, m')
         | (Inr byte_data, m') \<Rightarrow>
             (Inr (map int_of_digit (pyslice_from (bin (from_bytes_big byte_data)) 2)), m'))"

text \<open>
  The part of \<^verbatim>\<open>read_ao_integers\<close> after the format has been chosen. The statement
  \<^verbatim>\<open>int_format_char.upper()\<close> computes a new string and drops it: Python strings
  are immutable, so \<open>int_format_char\<close> is the same afterwards.
\<close>

definition ao_integers ::
  "modbus \<Rightarrow> int \<Rightarrow> int \<Rightarrow> int \<Rightarrow> char \<Rightarrow> int \<Rightarrow> bool \<Rightarrow> (error + int list) \<times> modbus" where
  "ao_integers m device_addr start_reg_addr ints_amount int_format_char regs_amount is_signed =
     (let command = [0x03];
          dropped = (if \<not> is_signed then [upper int_format_char] else [])
      in case return_bytes m command device_addr start_reg_addr regs_amount of
           (Inl e, m') \<Rightarrow> (Inl e, m')
         | (Inr byte_data, m') \<Rightarrow> (unpack_ints int_format_char ints_amount byte_data, m'))"

definition read_ao_integers ::
  "modbus \<Rightarrow> int \<Rightarrow> int \<Rightarrow> int \<Rightarrow> string \<Rightarrow> bool \<Rightarrow> (error + int list) \<times> modbus" where
  "read_ao_integers m device_addr start_reg_addr ints_amount int_format is_signed =
     (if int_format = ''short'' then
        ao_integers m device_addr start_reg_addr ints_amount (CHR ''h'') ints_amount is_signed
      else if int_format = ''long'' then
        ao_integers m device_addr start_reg_addr ints_amount (CHR ''l'') (ints_amount * 2) is_signed
      else if int_format = ''long long'' then
        ao_integers m device_addr start_reg_addr ints_amount (CHR ''q'') (ints_amount * 4) is_signed
      else (Inl (ValueError invalid_integer_format), m))"

definition ao_floats ::
  "modbus \<Rightarrow> int \<Rightarrow> int \<Rightarrow> int \<Rightarrow> char \<Rightarrow> int \<Rightarrow> (error + pyfloat list) \<times> modbus" where
  "ao_floats m device_addr start_reg_addr floats_amount float_format_char regs_amount =
     (let command = [0x03]
      in case return_bytes m command device_addr start_reg_addr regs_amount of
           (Inl e, m') \<Rightarrow> (Inl e, m')
         | (Inr byte_data, m') \<Rightarrow> (unpack_floats float_format_char floats_amount byte_data, m'))"

definition read_ao_floats ::
  "modbus \<Rightarrow> int \<Rightarrow> int \<Rightarrow> int \<Rightarrow> string \<Rightarrow> (error + pyfloat list) \<times> modbus" where
  "read_ao_floats m device_addr start_reg_addr floats_amount float_precision =
     (if float_precision = ''float'' then
        ao_floats m device_addr start_reg_addr floats_amount (CHR ''f'') (floats_amount * 2)
      else if float_precision = ''double'' then
        ao_floats m device_addr start_reg_addr floats_amount (CHR ''d'') (floats_amount * 4)
      else (Inl (ValueError invalid_float_format), m))"

subsection \<open>Reference definitions\<close>

text \<open>
  The pipeline the specification gives for both bit-reading operations, with the function
  code as a parameter: encode, send, optional echo drain, receive up to the expected
  length, validate, decode. The payload is read as a big-endian unsigned integer and
  expanded into its binary digits, most significant first.
\<close>

definition decode_bits :: "bytes \<Rightarrow> int list" where
  "decode_bits payload = map int_of_digit (bin_digits (from_bytes_big payload))"

definition read_bits_pipeline ::
  "byte \<Rightarrow> modbus \<Rightarrow> int \<Rightarrow> int \<Rightarrow> int \<Rightarrow> (error + int list) \<times> modbus" where
  "read_bits_pipeline function_code m device_addr start_reg_addr count =
     (case build_request [function_code] device_addr start_reg_addr count of
        Inl e \<Rightarrow> (Inl e, m)
      | Inr request \<Rightarrow>
         (let sent = port_write request m;
              drained = read_echo request sent;
              received = port_read (count * 2 + 5) drained
          in case validate [function_code] (fst received) of
               Inl e \<Rightarrow> (Inl e, snd received)
             | Inr payload \<Rightarrow> (Inr (decode_bits payload), snd received)))"

text \<open>
  The encoder of the integer round trip: a signed 32-bit integer as four bytes, most
  significant first, in two's complement (\<^verbatim>\<open>struct.pack('>l', x)\<close>).
\<close>

definition encode_int32 :: "int \<Rightarrow> bytes" where
  "encode_int32 x =
     [word_of_int (x div 2 ^ 24), word_of_int (x div 2 ^ 16),
      word_of_int (x div 2 ^ 8), word_of_int x]"

section \<open>Properties\<close>

subsection \<open>Slices and the checksum\<close>

lemma length_crc16 [simp]: "length (crc16 xs) = 2"
  by (simp add: crc16_def Let_def)

lemma pyslice_index_m2: "pyslice_index n (- 2) = n - 2"
  unfolding pyslice_index_def by arith

lemma pyslice_index_nat: "pyslice_index n (int k) = min n k"
  unfolding pyslice_index_def by simp

lemma pyslice_0_m2: "pyslice xs 0 (- 2) = take (length xs - 2) xs"
  using pyslice_index_nat [of "length xs" 0]
  by (simp add: pyslice_def Let_def pyslice_index_m2 numeral_2_eq_2)

lemma pyslice_from_m2: "pyslice_from xs (- 2) = drop (length xs - 2) xs"
  by (simp add: pyslice_from_def pyslice_index_m2)

lemma pyslice_1_2: "pyslice xs 1 2 = take (Suc 0) (drop (Suc 0) xs)"
  using pyslice_index_nat [of "length xs" 1] pyslice_index_nat [of "length xs" 2]
  by (cases "length xs \<ge> 2") (simp_all add: pyslice_def Let_def min_def)

lemma pyslice_3_m2: "pyslice xs 3 (- 2) = take (length xs - 5) (drop 3 xs)"
  using pyslice_index_nat [of "length xs" 3]
  by (cases "length xs \<ge> 3") (simp_all add: pyslice_def Let_def min_def pyslice_index_m2)

lemma pyslice_from_2: "pyslice_from xs 2 = drop 2 xs"
  using pyslice_index_nat [of "length xs" 2]
  by (cases "length xs \<ge> 2") (simp_all add: pyslice_from_def min_def)

lemma take1_drop1: "2 \<le> length xs \<Longrightarrow> take (Suc 0) (drop (Suc 0) xs) = [xs ! Suc 0]"
  by (cases xs; cases "tl xs"; simp)

lemma crc_ok_length:
  assumes "crc16 (take (length r - 2) r) = drop (length r - 2) r"
  shows "2 \<le> length r"
proof -
  have "length (drop (length r - 2) r) = 2"
    using assms length_crc16 by metis
  then show ?thesis by simp
qed

text \<open>Evaluating the checksum on a literal byte string.\<close>

lemma crc16_update_unfold:
  "crc16_update c b =
     crc16_shift (crc16_shift (crc16_shift (crc16_shift
       (crc16_shift (crc16_shift (crc16_shift (crc16_shift (c XOR ucast b))))))))"
  by (simp add: crc16_update_def eval_nat_numeral)

lemmas crc16_eval = crc16_def crc16_register_def crc16_update_unfold crc16_shift_def Let_def

lemma crc16_reference: "crc16 [0x01, 0x03, 0x00, 0x00, 0x00, 0x0A] = [0xC5, 0xCD]"
  by (simp add: crc16_eval)

lemma crc16_exception_frame: "crc16 [0, 0x83, 2] = [0x91, 0x31]"
  by (simp add: crc16_eval)

lemma crc16_register_frame: "crc16 [0, 3, 2, 0x80, 0] = [0xE4, 0x44]"
  by (simp add: crc16_eval)

subsection \<open>Response validation\<close>

text \<open>
  C3. The three checks run in a fixed order, each with its own failure: an empty
  response raises \<^verbatim>\<open>TimeoutError\<close> (no response); otherwise a response whose last
  two bytes are not the CRC-16 of the bytes before them raises \<^verbatim>\<open>CrcError\<close>,
  whatever its function byte is; otherwise a response whose byte at offset 1 is not the
  request's function code raises \<^verbatim>\<open>FunctionError\<close>.
\<close>

theorem validate_order:
  "validate [f] [] = Inl (TimeoutError no_respond)
   \<and> (response \<noteq> []
        \<and> crc16 (take (length response - 2) response) \<noteq> drop (length response - 2) response
        \<longrightarrow> validate [f] response = Inl (CrcError crc_is_not_correct))
   \<and> (response \<noteq> []
        \<and> crc16 (take (length response - 2) response) = drop (length response - 2) response
        \<and> response ! 1 \<noteq> f
        \<longrightarrow> validate [f] response = Inl (FunctionError invalid_function))"
proof (intro conjI impI)
  show "validate [f] [] = Inl (TimeoutError no_respond)"
    by (simp add: validate_def check_response_def)
next
  assume "response \<noteq> []
    \<and> crc16 (take (length response - 2) response) \<noteq> drop (length response - 2) response"
  then show "validate [f] response = Inl (CrcError crc_is_not_correct)"
    by (simp add: validate_def check_response_def check_crc_def pyslice_0_m2 pyslice_from_m2)
next
  assume a: "response \<noteq> []
    \<and> crc16 (take (length response - 2) response) = drop (length response - 2) response
    \<and> response ! 1 \<noteq> f"
  then have "2 \<le> length response"
    using crc_ok_length by blast
  then have "pyslice response 1 2 = [response ! 1]"
    by (simp add: pyslice_1_2 take1_drop1)
  with a show "validate [f] response = Inl (FunctionError invalid_function)"
    by (simp add: validate_def check_response_def check_crc_def check_command_def
        pyslice_0_m2 pyslice_from_m2)
qed

text \<open>
  An exception reply to a register read (function byte \<open>0x83\<close>): with a wrong checksum
  it is a CRC failure although the function byte mismatches too; with the right checksum
  it is a function failure.
\<close>

theorem validate_order_witness:
  "validate [3] [0, 0x83, 2, 0, 0] = Inl (CrcError crc_is_not_correct)
   \<and> validate [3] [0, 0x83, 2, 0x91, 0x31] = Inl (FunctionError invalid_function)"
  using validate_order [of 3 "[0, 0x83, 2, 0, 0]"]
    validate_order [of 3 "[0, 0x83, 2, 0x91, 0x31]"]
  by (simp add: crc16_exception_frame)

text \<open>
  C6. A response of at least five bytes whose byte at offset 1 is the request's function
  code and whose last two bytes are the CRC-16 of all bytes before them passes validation,
  and the result is \<^verbatim>\<open>response[3 : len(response)-2]\<close>, unmodified. Validation does not
  look at the request's address, start register or count.
\<close>

theorem validate_payload:
  assumes "5 \<le> length response"
    and "response ! 1 = f"
    and "drop (length response - 2) response = crc16 (take (length response - 2) response)"
  shows "validate [f] response = Inr (take (length response - 5) (drop 3 response))"
proof -
  have ne: "response \<noteq> []"
    using assms(1) by auto
  have "pyslice response 1 2 = [response ! 1]"
    using assms(1) by (simp add: pyslice_1_2 take1_drop1)
  with assms ne show ?thesis
    by (simp add: validate_def check_response_def check_crc_def check_command_def
        pyslice_0_m2 pyslice_from_m2 pyslice_3_m2)
qed

theorem validate_payload_witness:
  "validate [3] [0, 3, 2, 0x80, 0, 0xE4, 0x44] = Inr [0x80, 0]"
  using validate_payload [of "[0, 3, 2, 0x80, 0, 0xE4, 0x44]" 3]
  by (simp add: crc16_register_frame)

subsection \<open>The request and the port\<close>

lemma build_request_positive:
  "0 < device_addr \<Longrightarrow>
   build_request command device_addr start_reg_addr regs_amount =
     Inl (ValueError invalid_device_addr)"
  by (simp add: build_request_def check_device_addr_def)

lemma build_request_zero:
  assumes "0 \<le> s" "s \<le> 65535" "0 \<le> n" "n \<le> 65535"
  shows "build_request command 0 s n =
    Inr ((command @ [word_of_int (s div 256), word_of_int (s mod 256),
                    word_of_int (n div 256), word_of_int (n mod 256)])
         @ crc16 (command @ [word_of_int (s div 256), word_of_int (s mod 256),
                    word_of_int (n div 256), word_of_int (n mod 256)]))"
  using assms
  by (simp add: build_request_def check_device_addr_def pack_H_def bytes_of_count_def Let_def)

lemma build_request_Inr_zero:
  "build_request command device_addr s n = Inr request \<Longrightarrow> device_addr = 0"
  by (auto simp add: build_request_def check_device_addr_def pack_H_def bytes_of_count_def
      Let_def split: if_splits sum.splits)

lemma return_bytes_Inl:
  "build_request command device_addr s n = Inl e \<Longrightarrow>
   return_bytes m command device_addr s n = (Inl e, m)"
  by (simp add: return_bytes_def)

lemma return_bytes_trace:
  "build_request command device_addr s n = Inr request \<Longrightarrow>
   trace (snd (return_bytes m command device_addr s n)) =
     trace m @ [Write request] @ (if echo m then [Read (int (length request))] else [])
       @ [Read (n * 2 + 5)]"
  by (simp add: return_bytes_def Let_def port_write_def read_echo_def port_read_def split_def)

lemma crc16_request_3: "crc16 [3, 0, 0, 0, 1] = [0xA1, 0xC0]"
  by (simp add: crc16_eval)

text \<open>
  C1. For a device address in \<open>1..255\<close> the request should be the eight bytes address,
  function, start (high, low), count (high, low), CRC (low, high). The code does
  otherwise: address 1 is rejected by the inverted range check and nothing is sent, and
  for address 0, the only non-negative address that passes the check, \<^verbatim>\<open>bytes(0)\<close> is
  empty, so the frame written has seven bytes and no address byte.
\<close>

theorem request_frame_defect:
  "return_bytes \<lparr>echo = False, rx = [], trace = []\<rparr> [3] 1 0 1 =
     (Inl (ValueError invalid_device_addr), \<lparr>echo = False, rx = [], trace = []\<rparr>)
   \<and> trace (snd (return_bytes \<lparr>echo = False, rx = [], trace = []\<rparr> [3] 0 0 1)) =
       [Write [3, 0, 0, 0, 1, 0xA1, 0xC0], Read 7]"
proof
  show "return_bytes \<lparr>echo = False, rx = [], trace = []\<rparr> [3] 1 0 1 =
     (Inl (ValueError invalid_device_addr), \<lparr>echo = False, rx = [], trace = []\<rparr>)"
    by (simp add: return_bytes_Inl build_request_positive)
next
  have "build_request [3] 0 0 1 = Inr [3, 0, 0, 0, 1, 0xA1, 0xC0]"
    using build_request_zero [of 0 1 "[3]"] by (simp add: crc16_request_3)
  then show "trace (snd (return_bytes \<lparr>echo = False, rx = [], trace = []\<rparr> [3] 0 0 1)) =
       [Write [3, 0, 0, 0, 1, 0xA1, 0xC0], Read 7]"
    using return_bytes_trace [of "[3]" 0 0 1 _ "\<lparr>echo = False, rx = [], trace = []\<rparr>"]
    by simp
qed

lemma build_request_negative:
  "device_addr < 0 \<Longrightarrow> 0 \<le> s \<Longrightarrow> s \<le> 65535 \<Longrightarrow> 0 \<le> n \<Longrightarrow> n \<le> 65535 \<Longrightarrow>
   build_request command device_addr s n = Inl (ValueError negative_count)"
  by (simp add: build_request_def check_device_addr_def pack_H_def bytes_of_count_def)

text \<open>
  C2. Every address in \<open>0..255\<close> should pass the address check and every other
  address should fail it with the invalid-address error before any I/O. The check as
  written rejects exactly the positive addresses: 1 and 255 fail with the invalid-address
  error, and \<open>-1\<close> passes; a read at \<open>-1\<close> then stops at \<^verbatim>\<open>bytes(-1)\<close> with
  the interpreter's own \<^verbatim>\<open>ValueError\<close>. In both failures the port is untouched.
\<close>

theorem address_check_defect:
  "check_device_addr 1 = Inl (ValueError invalid_device_addr)
   \<and> check_device_addr 255 = Inl (ValueError invalid_device_addr)
   \<and> check_device_addr (- 1) = Inr ()
   \<and> read_do_integers \<lparr>echo = False, rx = [], trace = []\<rparr> 1 0 1 =
       (Inl (ValueError invalid_device_addr), \<lparr>echo = False, rx = [], trace = []\<rparr>)
   \<and> read_do_integers \<lparr>echo = False, rx = [], trace = []\<rparr> (- 1) 0 1 =
       (Inl (ValueError negative_count), \<lparr>echo = False, rx = [], trace = []\<rparr>)"
proof (intro conjI)
  show "check_device_addr 1 = Inl (ValueError invalid_device_addr)"
    by (simp add: check_device_addr_def)
  show "check_device_addr 255 = Inl (ValueError invalid_device_addr)"
    by (simp add: check_device_addr_def)
  show "check_device_addr (- 1) = Inr ()"
    by (simp add: check_device_addr_def)
  show "read_do_integers \<lparr>echo = False, rx = [], trace = []\<rparr> 1 0 1 =
       (Inl (ValueError invalid_device_addr), \<lparr>echo = False, rx = [], trace = []\<rparr>)"
    by (simp add: read_do_integers_def return_bytes_Inl build_request_positive)
  show "read_do_integers \<lparr>echo = False, rx = [], trace = []\<rparr> (- 1) 0 1 =
       (Inl (ValueError negative_count), \<lparr>echo = False, rx = [], trace = []\<rparr>)"
    by (simp add: read_do_integers_def return_bytes_Inl build_request_negative)
qed

subsection \<open>Format selectors\<close>

text \<open>
  C7. A width selector other than \<^verbatim>\<open>short\<close>, \<^verbatim>\<open>long\<close>, \<^verbatim>\<open>long long\<close> makes the
  integer read fail with the invalid-integer-format \<^verbatim>\<open>ValueError\<close>, and a precision
  selector other than \<^verbatim>\<open>float\<close>, \<^verbatim>\<open>double\<close> makes the float read fail with the
  invalid-float-format \<^verbatim>\<open>ValueError\<close>. The client comes back unchanged: its trace
  has no new write or read, and no register count was formed.
\<close>

theorem invalid_format_rejected:
  "(int_format \<noteq> ''short'' \<and> int_format \<noteq> ''long'' \<and> int_format \<noteq> ''long long''
      \<longrightarrow> read_ao_integers m device_addr start_reg_addr ints_amount int_format is_signed =
            (Inl (ValueError invalid_integer_format), m))
   \<and> (float_precision \<noteq> ''float'' \<and> float_precision \<noteq> ''double''
      \<longrightarrow> read_ao_floats m device_addr start_reg_addr floats_amount float_precision =
            (Inl (ValueError invalid_float_format), m))"
  by (simp add: read_ao_integers_def read_ao_floats_def)

theorem invalid_format_rejected_witness:
  "read_ao_integers \<lparr>echo = True, rx = [1, 2, 3], trace = []\<rparr> 0 0 1 ''int'' True =
     (Inl (ValueError invalid_integer_format), \<lparr>echo = True, rx = [1, 2, 3], trace = []\<rparr>)
   \<and> read_ao_floats \<lparr>echo = True, rx = [1, 2, 3], trace = []\<rparr> 0 0 1 ''half'' =
     (Inl (ValueError invalid_float_format), \<lparr>echo = True, rx = [1, 2, 3], trace = []\<rparr>)"
  using invalid_format_rejected
    [of "''int''" "\<lparr>echo = True, rx = [1, 2, 3], trace = []\<rparr>" 0 0 1 True "''half''" 1]
  by simp

subsection \<open>Expected response length\<close>

lemma read_do_trace:
  "trace (snd (read_do_integers m a s n)) = trace (snd (return_bytes m [1] a s n))"
  by (simp add: read_do_integers_def split: prod.splits sum.splits)

lemma read_di_trace:
  "trace (snd (read_di_integers m a s n)) = trace (snd (return_bytes m [2] a s n))"
  by (simp add: read_di_integers_def split: prod.splits sum.splits)

lemma ao_integers_trace:
  "trace (snd (ao_integers m a s n c r sg)) = trace (snd (return_bytes m [3] a s r))"
  by (simp add: ao_integers_def split: prod.splits sum.splits)

lemma ao_floats_trace:
  "trace (snd (ao_floats m a s n c r)) = trace (snd (return_bytes m [3] a s r))"
  by (simp add: ao_floats_def split: prod.splits sum.splits)

text \<open>
  C9. Whenever an operation gets as far as sending its request, the trace it leaves is
  the write of the request, the echo drain when echo is on, and one read of exactly
  \<open>regs_amount * 2 + 5\<close> bytes, where \<open>regs_amount\<close> is the count itself for the two
  bit reads and for \<^verbatim>\<open>short\<close>, twice the count for \<^verbatim>\<open>long\<close> and
  \<^verbatim>\<open>float\<close>, four times the count for \<^verbatim>\<open>long long\<close> and \<^verbatim>\<open>double\<close>.
\<close>

theorem expected_response_length:
  "(build_request [1] a s n = Inr req \<longrightarrow>
      trace (snd (read_do_integers m a s n)) =
        trace m @ [Write req] @ (if echo m then [Read (int (length req))] else [])
          @ [Read (n * 2 + 5)])
   \<and> (build_request [2] a s n = Inr req \<longrightarrow>
      trace (snd (read_di_integers m a s n)) =
        trace m @ [Write req] @ (if echo m then [Read (int (length req))] else [])
          @ [Read (n * 2 + 5)])
   \<and> (build_request [3] a s n = Inr req \<longrightarrow>
      trace (snd (read_ao_integers m a s n ''short'' sg)) =
        trace m @ [Write req] @ (if echo m then [Read (int (length req))] else [])
          @ [Read (n * 2 + 5)])
   \<and> (build_request [3] a s (n * 2) = Inr req \<longrightarrow>
      trace (snd (read_ao_integers m a s n ''long'' sg)) =
        trace m @ [Write req] @ (if echo m then [Read (int (length req))] else [])
          @ [Read ((n * 2) * 2 + 5)])
   \<and> (build_request [3] a s (n * 4) = Inr req \<longrightarrow>
      trace (snd (read_ao_integers m a s n ''long long'' sg)) =
        trace m @ [Write req] @ (if echo m then [Read (int (length req))] else [])
          @ [Read ((n * 4) * 2 + 5)])
   \<and> (build_request [3] a s (n * 2) = Inr req \<longrightarrow>
      trace (snd (read_ao_floats m a s n ''float'')) =
        trace m @ [Write req] @ (if echo m then [Read (int (length req))] else [])
          @ [Read ((n * 2) * 2 + 5)])
   \<and> (build_request [3] a s (n * 4) = Inr req \<longrightarrow>
      trace (snd (read_ao_floats m a s n ''double'')) =
        trace m @ [Write req] @ (if echo m then [Read (int (length req))] else [])
          @ [Read ((n * 4) * 2 + 5)])"
proof (intro conjI impI)
  assume "build_request [1] a s n = Inr req"
  then show "trace (snd (read_do_integers m a s n)) =
        trace m @ [Write req] @ (if echo m then [Read (int (length req))] else [])
          @ [Read (n * 2 + 5)]"
    by (simp only: read_do_trace return_bytes_trace)
next
  assume "build_request [2] a s n = Inr req"
  then show "trace (snd (read_di_integers m a s n)) =
        trace m @ [Write req] @ (if echo m then [Read (int (length req))] else [])
          @ [Read (n * 2 + 5)]"
    by (simp only: read_di_trace return_bytes_trace)
next
  assume "build_request [3] a s n = Inr req"
  then show "trace (snd (read_ao_integers m a s n ''short'' sg)) =
        trace m @ [Write req] @ (if echo m then [Read (int (length req))] else [])
          @ [Read (n * 2 + 5)]"
    by (simp add: read_ao_integers_def ao_integers_trace return_bytes_trace)
next
  assume "build_request [3] a s (n * 2) = Inr req"
  then show "trace (snd (read_ao_integers m a s n ''long'' sg)) =
        trace m @ [Write req] @ (if echo m then [Read (int (length req))] else [])
          @ [Read ((n * 2) * 2 + 5)]"
    by (simp add: read_ao_integers_def ao_integers_trace return_bytes_trace)
next
  assume "build_request [3] a s (n * 4) = Inr req"
  then show "trace (snd (read_ao_integers m a s n ''long long'' sg)) =
        trace m @ [Write req] @ (if echo m then [Read (int (length req))] else [])
          @ [Read ((n * 4) * 2 + 5)]"
    by (simp add: read_ao_integers_def ao_integers_trace return_bytes_trace)
next
  assume "build_request [3] a s (n * 2) = Inr req"
  then show "trace (snd (read_ao_floats m a s n ''float'')) =
        trace m @ [Write req] @ (if echo m then [Read (int (length req))] else [])
          @ [Read ((n * 2) * 2 + 5)]"
    by (simp add: read_ao_floats_def ao_floats_trace return_bytes_trace)
next
  assume "build_request [3] a s (n * 4) = Inr req"
  then show "trace (snd (read_ao_floats m a s n ''double'')) =
        trace m @ [Write req] @ (if echo m then [Read (int (length req))] else [])
          @ [Read ((n * 4) * 2 + 5)]"
    by (simp add: read_ao_floats_def ao_floats_trace return_bytes_trace)
qed

lemma crc16_request_1: "crc16 [1, 0, 0, 0, 1] = [0xD8, 0]"
  by (simp add: crc16_eval)

lemma crc16_request_2: "crc16 [2, 0, 0, 0, 1] = [0x9C, 0]"
  by (simp add: crc16_eval)

lemma crc16_request_3_2: "crc16 [3, 0, 0, 0, 2] = [0xE1, 0xC1]"
  by (simp add: crc16_eval)

lemma crc16_request_3_4: "crc16 [3, 0, 0, 0, 4] = [0x61, 0xC3]"
  by (simp add: crc16_eval)

lemma request_1: "build_request [1] 0 0 1 = Inr [1, 0, 0, 0, 1, 0xD8, 0]"
  using build_request_zero [of 0 1 "[1]"] by (simp add: crc16_request_1)

lemma request_2: "build_request [2] 0 0 1 = Inr [2, 0, 0, 0, 1, 0x9C, 0]"
  using build_request_zero [of 0 1 "[2]"] by (simp add: crc16_request_2)

lemma request_3: "build_request [3] 0 0 1 = Inr [3, 0, 0, 0, 1, 0xA1, 0xC0]"
  using build_request_zero [of 0 1 "[3]"] by (simp add: crc16_request_3)

lemma request_3_2: "build_request [3] 0 0 2 = Inr [3, 0, 0, 0, 2, 0xE1, 0xC1]"
  using build_request_zero [of 0 2 "[3]"] by (simp add: crc16_request_3_2)

lemma request_3_4: "build_request [3] 0 0 4 = Inr [3, 0, 0, 0, 4, 0x61, 0xC3]"
  using build_request_zero [of 0 4 "[3]"] by (simp add: crc16_request_3_4)

theorem expected_response_length_witness:
  "trace (snd (read_do_integers \<lparr>echo = True, rx = [], trace = []\<rparr> 0 0 1)) =
     [Write [1, 0, 0, 0, 1, 0xD8, 0], Read 7, Read 7]
   \<and> trace (snd (read_di_integers \<lparr>echo = False, rx = [], trace = []\<rparr> 0 0 1)) =
     [Write [2, 0, 0, 0, 1, 0x9C, 0], Read 7]
   \<and> trace (snd (read_ao_integers \<lparr>echo = False, rx = [], trace = []\<rparr> 0 0 1 ''short'' True)) =
     [Write [3, 0, 0, 0, 1, 0xA1, 0xC0], Read 7]
   \<and> trace (snd (read_ao_integers \<lparr>echo = False, rx = [], trace = []\<rparr> 0 0 1 ''long'' True)) =
     [Write [3, 0, 0, 0, 2, 0xE1, 0xC1], Read 9]
   \<and> trace (snd (read_ao_integers \<lparr>echo = False, rx = [], trace = []\<rparr> 0 0 1 ''long long'' True)) =
     [Write [3, 0, 0, 0, 4, 0x61, 0xC3], Read 13]
   \<and> trace (snd (read_ao_floats \<lparr>echo = False, rx = [], trace = []\<rparr> 0 0 1 ''float'')) =
     [Write [3, 0, 0, 0, 2, 0xE1, 0xC1], Read 9]
   \<and> trace (snd (read_ao_floats \<lparr>echo = False, rx = [], trace = []\<rparr> 0 0 1 ''double'')) =
     [Write [3, 0, 0, 0, 4, 0x61, 0xC3], Read 13]"
  using
    expected_response_length [of 0 0 1 "[1, 0, 0, 0, 1, 0xD8, 0]" "\<lparr>echo = True, rx = [], trace = []\<rparr>" True]
    expected_response_length [of 0 0 1 "[2, 0, 0, 0, 1, 0x9C, 0]" "\<lparr>echo = False, rx = [], trace = []\<rparr>" True]
    expected_response_length [of 0 0 1 "[3, 0, 0, 0, 1, 0xA1, 0xC0]" "\<lparr>echo = False, rx = [], trace = []\<rparr>" True]
    expected_response_length [of 0 0 1 "[3, 0, 0, 0, 2, 0xE1, 0xC1]" "\<lparr>echo = False, rx = [], trace = []\<rparr>" True]
    expected_response_length [of 0 0 1 "[3, 0, 0, 0, 4, 0x61, 0xC3]" "\<lparr>echo = False, rx = [], trace = []\<rparr>" True]
  by (simp add: request_1 request_2 request_3 request_3_2 request_3_4)

subsection \<open>Integer decoding\<close>

lemma validate_frame:
  "validate [f] ([a, f, k] @ payload @ crc16 ([a, f, k] @ payload)) = Inr payload"
proof -
  let ?r = "[a, f, k] @ payload @ crc16 ([a, f, k] @ payload)"
  have len: "length ?r = length payload + 5" by simp
  have t: "take (length ?r - 2) ?r = [a, f, k] @ payload" by simp
  have d: "drop (length ?r - 2) ?r = crc16 ([a, f, k] @ payload)" by simp
  have p: "take (length ?r - 5) (drop 3 ?r) = payload" by simp
  have c: "pyslice ?r 1 2 = [f]" by (simp add: pyslice_1_2)
  have ne: "?r \<noteq> []" by simp
  show ?thesis
    unfolding validate_def check_response_def check_crc_def check_command_def
      pyslice_0_m2 pyslice_from_m2 pyslice_3_m2 Let_def t d p c
    using ne by simp
qed

lemma return_bytes_eq:
  assumes "build_request command device_addr s n = Inr request"
  shows "return_bytes m command device_addr s n =
    (validate command
       (take (nat (n * 2 + 5)) (drop (if echo m then length request else 0) (rx m))),
     m\<lparr>rx := drop (nat (n * 2 + 5)) (drop (if echo m then length request else 0) (rx m)),
       trace := trace m @ [Write request]
         @ (if echo m then [Read (int (length request))] else []) @ [Read (n * 2 + 5)]\<rparr>)"
  using assms
  by (simp add: return_bytes_def Let_def port_write_def read_echo_def port_read_def)

lemma unpack_h_sample: "unpack_ints (CHR ''h'') 1 [0x80, 0] = Inr [- 32768]"
  by (simp add: unpack_ints_def int_size_def chunks.simps int_of_chunk_def signed_code_def
      from_bytes_big_def Let_def)

lemma return_bytes_sample:
  "return_bytes \<lparr>echo = False, rx = [0, 3, 2, 0x80, 0, 0xE4, 0x44], trace = []\<rparr> [3] 0 0 1 =
     (Inr [0x80, 0],
      \<lparr>echo = False, rx = [], trace = [Write [3, 0, 0, 0, 1, 0xA1, 0xC0], Read 7]\<rparr>)"
  using validate_frame [of 3 0 2 "[0x80, 0]"]
  by (simp add: return_bytes_eq [OF request_3] crc16_register_frame)

text \<open>
  C4. With \<^verbatim>\<open>is_signed = False\<close> every chunk should decode as an unsigned integer.
  The result of \<^verbatim>\<open>int_format_char.upper()\<close> is thrown away, so the format
  character stays lower case and the flag changes nothing: an unsigned read is the
  signed read, and the 16-bit chunk \<open>0x8000\<close> decodes to \<open>-32768\<close>, not to
  \<open>32768\<close>.
\<close>

theorem unsigned_flag_ignored:
  "read_ao_integers m device_addr start_reg_addr ints_amount int_format False =
     read_ao_integers m device_addr start_reg_addr ints_amount int_format True
   \<and> read_ao_integers \<lparr>echo = False, rx = [0, 3, 2, 0x80, 0, 0xE4, 0x44], trace = []\<rparr>
        0 0 1 ''short'' False =
       (Inr [- 32768],
        \<lparr>echo = False, rx = [], trace = [Write [3, 0, 0, 0, 1, 0xA1, 0xC0], Read 7]\<rparr>)"
proof
  show "read_ao_integers m device_addr start_reg_addr ints_amount int_format False =
     read_ao_integers m device_addr start_reg_addr ints_amount int_format True"
    by (simp add: read_ao_integers_def ao_integers_def Let_def)
next
  show "read_ao_integers \<lparr>echo = False, rx = [0, 3, 2, 0x80, 0, 0xE4, 0x44], trace = []\<rparr>
        0 0 1 ''short'' False =
       (Inr [- 32768],
        \<lparr>echo = False, rx = [], trace = [Write [3, 0, 0, 0, 1, 0xA1, 0xC0], Read 7]\<rparr>)"
    by (simp add: read_ao_integers_def ao_integers_def Let_def return_bytes_sample
        unpack_h_sample)
qed

subsection \<open>Bit sequences\<close>

lemma int_of_digit_0 [simp]: "int_of_digit (CHR ''0'') = 0"
  by (simp add: int_of_digit_def)

lemma int_of_digit_1 [simp]: "int_of_digit (CHR ''1'') = 1"
  by (simp add: int_of_digit_def)

lemma bin_strip: "pyslice_from (bin n) 2 = bin_digits n"
  by (simp add: pyslice_from_2 bin_def)

lemma bin_digits_small: "n < 2 \<Longrightarrow> bin_digits n = [if n = 0 then CHR ''0'' else CHR ''1'']"
  by (subst bin_digits.simps) simp

lemma bin_digits_large:
  "\<not> n < 2 \<Longrightarrow>
   bin_digits n = bin_digits (n div 2) @ [if n mod 2 = 0 then CHR ''0'' else CHR ''1'']"
  by (subst bin_digits.simps) simp

lemma bin_digits_value:
  "foldl (\<lambda>v d. 2 * v + d) 0 (map int_of_digit (bin_digits n)) = int n"
proof (induction n rule: bin_digits.induct)
  case (1 n)
  show ?case
  proof (cases "n < 2")
    case True
    then show ?thesis by (auto simp add: bin_digits_small)
  next
    case False
    have "foldl (\<lambda>v d. 2 * v + d) 0 (map int_of_digit (bin_digits n)) =
          2 * int (n div 2) + int (n mod 2)"
      using False "1.IH" by (auto simp add: bin_digits_large)
    also have "\<dots> = int n"
      by (metis of_nat_add of_nat_mult of_nat_numeral mult_div_mod_eq)
    finally show ?thesis .
  qed
qed

lemma bin_digits_set: "set (map int_of_digit (bin_digits n)) \<subseteq> {0, 1}"
proof (induction n rule: bin_digits.induct)
  case (1 n)
  show ?case
  proof (cases "n < 2")
    case True
    then show ?thesis by (simp add: bin_digits_small)
  next
    case False
    then show ?thesis using "1.IH" by (auto simp add: bin_digits_large)
  qed
qed

lemma bin_digits_nonempty: "bin_digits n \<noteq> []"
  by (cases "n < 2") (simp_all add: bin_digits_small bin_digits_large)

lemma bin_digits_leading: "0 < n \<Longrightarrow> hd (bin_digits n) = CHR ''1''"
proof (induction n rule: bin_digits.induct)
  case (1 n)
  show ?case
  proof (cases "n < 2")
    case True
    then show ?thesis using "1.prems" by (simp add: bin_digits_small)
  next
    case False
    then have "0 < n div 2" by simp
    then have "hd (bin_digits (n div 2)) = CHR ''1''"
      using False "1.IH" by simp
    then show ?thesis
      using False by (simp add: bin_digits_large bin_digits_nonempty)
  qed
qed

lemma bin_digits_length: "n < 2 ^ k \<Longrightarrow> 0 < k \<Longrightarrow> length (bin_digits n) \<le> k"
proof (induction n arbitrary: k rule: bin_digits.induct)
  case (1 n)
  show ?case
  proof (cases "n < 2")
    case True
    then show ?thesis using "1.prems" by (simp add: bin_digits_small)
  next
    case False
    obtain j where k: "k = Suc j" using "1.prems"(2) by (cases k) auto
    have j: "0 < j"
    proof (rule ccontr)
      assume "\<not> 0 < j"
      then have "k = 1" using k by simp
      then show False using "1.prems"(1) False by simp
    qed
    have "n div 2 < 2 ^ j" using "1.prems"(1) k by auto
    then have "length (bin_digits (n div 2)) \<le> j"
      using "1.IH" False j by simp
    then show ?thesis using False k by (simp add: bin_digits_large)
  qed
qed

lemma foldl_bytes_shift:
  "foldl (\<lambda>acc b. acc * 256 + unat (b :: byte)) a bs =
     a * 256 ^ length bs + foldl (\<lambda>acc b. acc * 256 + unat b) 0 bs"
proof (induction bs arbitrary: a)
  case Nil
  show ?case by simp
next
  case (Cons b bs)
  show ?case
    using Cons.IH [of "a * 256 + unat b"] Cons.IH [of "unat b"]
    by (simp add: algebra_simps)
qed

lemma from_bytes_big_Cons:
  "from_bytes_big (b # bs) = unat b * 256 ^ length bs + from_bytes_big bs"
  using foldl_bytes_shift [of "unat b" bs] by (simp add: from_bytes_big_def)

lemma digit_bound: "(a::nat) \<le> k \<Longrightarrow> r < p \<Longrightarrow> a * p + r < Suc k * p"
proof -
  assume ak: "a \<le> k" and r: "r < p"
  have "a * p \<le> k * p" using ak by (rule mult_le_mono1)
  then have "a * p + r < p + k * p" using r by linarith
  then show ?thesis by (simp only: mult_Suc)
qed

lemma from_bytes_big_bound: "from_bytes_big bs < 256 ^ length bs"
proof (induction bs)
  case Nil
  show ?case by (simp add: from_bytes_big_def)
next
  case (Cons b bs)
  have "unat b < 2 ^ LENGTH(8)" by (rule unsigned_less)
  then have "unat b \<le> 255" by simp
  then have "unat b * 256 ^ length bs + from_bytes_big bs < Suc 255 * 256 ^ length bs"
    using Cons.IH by (rule digit_bound)
  then show ?case by (simp add: from_bytes_big_Cons)
qed

lemma from_bytes_big_high_clear:
  assumes "payload \<noteq> []" and "hd payload < 0x80"
  shows "from_bytes_big payload < 2 ^ (8 * length payload - 1)"
proof -
  obtain b bs where p: "payload = b # bs" using assms(1) by (cases payload) auto
  have "unat b < 128" using assms(2) p by (simp add: word_less_nat_alt)
  then have "unat b \<le> 127" by simp
  then have "unat b * 256 ^ length bs + from_bytes_big bs < Suc 127 * 256 ^ length bs"
    using from_bytes_big_bound [of bs] by (rule digit_bound)
  then have "from_bytes_big payload < 128 * 256 ^ length bs"
    by (simp add: p from_bytes_big_Cons)
  also have "(128::nat) * 256 ^ length bs = 2 ^ (8 * length payload - 1)"
  proof -
    have "(256::nat) ^ length bs = 2 ^ (8 * length bs)"
      by (simp add: power_mult)
    moreover have "8 * length payload - 1 = 7 + 8 * length bs" by (simp add: p)
    ultimately show ?thesis by (simp add: power_add)
  qed
  finally show ?thesis .
qed

lemma decode_bits_length:
  assumes "payload \<noteq> []" and "hd payload < 0x80"
  shows "length (bin_digits (from_bytes_big payload)) < 8 * length payload"
proof -
  have "0 < 8 * length payload - 1" using assms(1) by (cases payload) auto
  then have "length (bin_digits (from_bytes_big payload)) \<le> 8 * length payload - 1"
    using bin_digits_length from_bytes_big_high_clear [OF assms] by blast
  then show ?thesis using assms(1) by (cases payload) auto
qed

lemma bin_digits_no_padding:
  "map int_of_digit (bin_digits n) = [0] \<or> hd (map int_of_digit (bin_digits n)) = 1"
proof (cases "n = 0")
  case True
  then show ?thesis by (simp add: bin_digits_small)
next
  case False
  then have "hd (bin_digits n) = CHR ''1''" using bin_digits_leading by simp
  then show ?thesis by (simp add: hd_map bin_digits_nonempty)
qed

lemma crc16_coil_frame_1: "crc16 [0, 1, 1, 1] = [0x91, 0xB4]"
  by (simp add: crc16_eval)

lemma crc16_coil_frame_5: "crc16 [0, 1, 1, 5] = [0x90, 0x77]"
  by (simp add: crc16_eval)

lemma crc16_input_frame_5: "crc16 [0, 2, 1, 5] = [0x60, 0x77]"
  by (simp add: crc16_eval)

lemma return_bytes_coil_1:
  "return_bytes \<lparr>echo = False, rx = [0, 1, 1, 1, 0x91, 0xB4], trace = []\<rparr> [1] 0 0 1 =
     (Inr [1], \<lparr>echo = False, rx = [], trace = [Write [1, 0, 0, 0, 1, 0xD8, 0], Read 7]\<rparr>)"
  using validate_frame [of 1 0 1 "[1]"]
  by (simp add: return_bytes_eq [OF request_1] crc16_coil_frame_1)

lemma return_bytes_coil_5:
  "return_bytes \<lparr>echo = False, rx = [0, 1, 1, 5, 0x90, 0x77], trace = []\<rparr> [1] 0 0 1 =
     (Inr [5], \<lparr>echo = False, rx = [], trace = [Write [1, 0, 0, 0, 1, 0xD8, 0], Read 7]\<rparr>)"
  using validate_frame [of 1 0 1 "[5]"]
  by (simp add: return_bytes_eq [OF request_1] crc16_coil_frame_5)

lemma return_bytes_input_5:
  "return_bytes \<lparr>echo = False, rx = [0, 2, 1, 5, 0x60, 0x77], trace = []\<rparr> [2] 0 0 1 =
     (Inr [5], \<lparr>echo = False, rx = [], trace = [Write [2, 0, 0, 0, 1, 0x9C, 0], Read 7]\<rparr>)"
  using validate_frame [of 2 0 1 "[5]"]
  by (simp add: return_bytes_eq [OF request_2] crc16_input_frame_5)

lemma bin_digits_1: "bin_digits (Suc 0) = ''1''"
  by (simp add: bin_digits_small)

lemma from_bytes_big_single: "from_bytes_big [b] = unat b"
  by (simp add: from_bytes_big_def)

text \<open>
  The payload \<open>[0x01]\<close>, whose only byte has seven leading zero bits, answers a
  read of one coil; the decoded sequence is \<open>[1]\<close>, of length one, which is not shorter
  than the requested count of one.
\<close>

theorem bit_sequence_shorter_counterexample:
  "return_bytes \<lparr>echo = False, rx = [0, 1, 1, 1, 0x91, 0xB4], trace = []\<rparr> [1] 0 0 1 =
     (Inr [0x01], \<lparr>echo = False, rx = [], trace = [Write [1, 0, 0, 0, 1, 0xD8, 0], Read 7]\<rparr>)
   \<and> (0x01 :: byte) < 0x80
   \<and> read_do_integers \<lparr>echo = False, rx = [0, 1, 1, 1, 0x91, 0xB4], trace = []\<rparr> 0 0 1 =
     (Inr [1], \<lparr>echo = False, rx = [], trace = [Write [1, 0, 0, 0, 1, 0xD8, 0], Read 7]\<rparr>)
   \<and> \<not> int (length [1 :: int]) < 1"
  by (simp add: read_do_integers_def return_bytes_coil_1 bin_strip from_bytes_big_single
      bin_digits_1)

text \<open>
  C5, as the code has it. When the response validates, the coil read and the
  discrete-input read return the binary digits of the payload read as a big-endian
  unsigned integer, most significant first: every element is 0 or 1, the digits
  evaluate to the payload's integer, the sequence is not empty and has no leading zero
  (it is \<open>[0]\<close> for the integer zero). So for a non-empty payload whose first byte is
  below \<open>0x80\<close> the sequence has fewer than \<open>8 * len(payload)\<close> elements; its
  length is fixed by the payload alone, not by the requested count.
\<close>

theorem bit_sequence_decoding:
  assumes "return_bytes m [c] a s n = (Inr payload, m')" and "c = 1 \<or> c = 2"
  shows "\<exists>bits.
      (if c = 1 then read_do_integers m a s n else read_di_integers m a s n) = (Inr bits, m')
      \<and> set bits \<subseteq> {0, 1}
      \<and> foldl (\<lambda>v d. 2 * v + d) 0 bits = int (from_bytes_big payload)
      \<and> bits \<noteq> []
      \<and> (bits = [0] \<or> hd bits = 1)
      \<and> (payload \<noteq> [] \<and> hd payload < 0x80 \<longrightarrow> length bits < 8 * length payload)"
proof -
  let ?bits = "map int_of_digit (bin_digits (from_bytes_big payload))"
  have op: "(if c = 1 then read_do_integers m a s n else read_di_integers m a s n) =
      (Inr ?bits, m')"
    using assms by (auto simp add: read_do_integers_def read_di_integers_def bin_strip)
  have len: "payload \<noteq> [] \<and> hd payload < 0x80 \<longrightarrow> length ?bits < 8 * length payload"
    using decode_bits_length by simp
  have ne: "?bits \<noteq> []" by (simp add: bin_digits_nonempty)
  show ?thesis
    using op len ne bin_digits_set [of "from_bytes_big payload"]
      bin_digits_value [of "from_bytes_big payload"]
      bin_digits_no_padding [of "from_bytes_big payload"]
    by (intro exI [of _ ?bits]) blast
qed

theorem bit_sequence_decoding_witness:
  "(\<exists>bits.
      read_do_integers \<lparr>echo = False, rx = [0, 1, 1, 5, 0x90, 0x77], trace = []\<rparr> 0 0 1 =
        (Inr bits, \<lparr>echo = False, rx = [], trace = [Write [1, 0, 0, 0, 1, 0xD8, 0], Read 7]\<rparr>)
      \<and> set bits \<subseteq> {0, 1}
      \<and> foldl (\<lambda>v d. 2 * v + d) 0 bits = 5
      \<and> bits \<noteq> []
      \<and> (bits = [0] \<or> hd bits = 1)
      \<and> length bits < 8)
   \<and> (\<exists>bits.
      read_di_integers \<lparr>echo = False, rx = [0, 2, 1, 5, 0x60, 0x77], trace = []\<rparr> 0 0 1 =
        (Inr bits, \<lparr>echo = False, rx = [], trace = [Write [2, 0, 0, 0, 1, 0x9C, 0], Read 7]\<rparr>)
      \<and> set bits \<subseteq> {0, 1}
      \<and> foldl (\<lambda>v d. 2 * v + d) 0 bits = 5
      \<and> bits \<noteq> []
      \<and> (bits = [0] \<or> hd bits = 1)
      \<and> length bits < 8)"
  using
    bit_sequence_decoding [OF return_bytes_coil_5, simplified]
    bit_sequence_decoding [OF return_bytes_input_5, simplified]
  by (simp add: from_bytes_big_single)

end
